theory Spec2Isabelle
  imports Main
begin

unbundle bit_operations_syntax

section \<open>The CAN update script: data\<close>

text \<open>
  The repository holds two variants of one script. They share every function but differ
  in \<open>wait_for_response\<close> (timeout and acknowledgement test) and in two log lines of
  \<open>main\<close>. \<open>FixedSource\<close> is \<^verbatim>\<open>can-update-script.py\<close> (timeout 120 s, source address 3),
  \<open>PgnGroup\<close> is \<^verbatim>\<open>can-update-script (1).py\<close> (timeout 10 s, masked identifier).
\<close>

datatype variant = FixedSource | PgnGroup

text \<open>
  A \<^verbatim>\<open>can.Message\<close>: the identifier is a Python integer, the payload a sequence of
  byte values.
\<close>

record message =
  arbitration_id :: int
  is_extended_id :: bool
  data :: "int list"

datatype log_entry = Info string | Warning string | Error string

text \<open>
  What one call of \<^verbatim>\<open>bus.recv(timeout=1)\<close> will meet: nothing for the whole poll
  interval, a frame after a delay, or a failure of the channel after a delay. Delays are in
  milliseconds and are cut at the poll interval.
\<close>

datatype rx = Quiet | Got nat message | Broken nat

datatype recv_result = RecvNone | RecvMsg message | RecvRaise

text \<open>A call that either returns a value or raises an exception its caller does not expect.\<close>

datatype 'a call = Returns 'a | Raises

text \<open>An external process started with \<^verbatim>\<open>subprocess.run(..., check=True)\<close>.\<close>

datatype proc = Exit0 | NonZero | CannotRun

text \<open>
  The state the script acts on. Time is counted in whole milliseconds. \<open>rx_script\<close> is the
  finite list of what the coming receive calls meet; once it is used up the bus stays
  silent. \<open>opened\<close> counts the bus handles opened so far, \<open>unreleased\<close> those that
  were opened and are not shut down yet. The log holds the lines the script itself logs.
\<close>

record world =
  clock :: nat
  rx_script :: "rx list"
  transmitted :: "message list"
  opened :: nat
  unreleased :: nat
  recv_calls :: nat
  setup_calls :: nat
  update_calls :: nat
  check_times :: "nat list"
  interval_sleeps :: nat
  log :: "log_entry list"

text \<open>
  What the collaborators do in one pass of the main loop: the freshness check (its result
  and the lines it logs), the three \<^verbatim>\<open>ip link\<close> commands, the two constructions of
  \<^verbatim>\<open>can.interface.Bus\<close>, \<^verbatim>\<open>bus.send\<close>, \<^verbatim>\<open>os.chdir\<close> and the updater process.
  \<open>deadline_rounds_below\<close> says how the floating-point test of the waiting loop comes
  out at the instant the timeout has passed exactly (see \<open>within_timeout\<close>).
\<close>

record env =
  check_result :: "bool call"
  check_log :: "log_entry list"
  link_down :: proc
  set_bitrate :: proc
  link_up :: proc
  send_bus_opens :: bool
  send_succeeds :: bool
  wait_bus_opens :: bool
  deadline_rounds_below :: bool
  chdir_succeeds :: bool
  updater :: proc

section \<open>Constants\<close>

definition DOWNLOAD_CHECK_INTERVAL :: nat where
  "DOWNLOAD_CHECK_INTERVAL = 60000"

definition poll_interval :: nat where
  "poll_interval = 1000"

fun timeout :: "variant \<Rightarrow> nat" where
  "timeout FixedSource = 120000"
| "timeout PgnGroup = 10000"

section \<open>Operations\<close>

definition logging :: "log_entry \<Rightarrow> world \<Rightarrow> world" where
  "logging l w = w\<lparr>log := log w @ [l]\<rparr>"

definition sleep :: "nat \<Rightarrow> world \<Rightarrow> world" where
  "sleep ms w = w\<lparr>clock := clock w + ms\<rparr>"

definition trigger_message :: message where
  "trigger_message =
     \<lparr>arbitration_id = 0x18FF14FA, is_extended_id = True, data = [1, 0, 0, 0, 0, 0, 0, 0]\<rparr>"

text \<open>\<^verbatim>\<open>bus = can.interface.Bus(channel='can0', bustype='socketcan')\<close>, when it succeeds.\<close>

definition open_bus :: "world \<Rightarrow> world" where
  "open_bus w = w\<lparr>opened := opened w + 1, unreleased := unreleased w + 1\<rparr>"

text \<open>
  The script never calls \<^verbatim>\<open>bus.shutdown()\<close>. The local variable \<^verbatim>\<open>bus\<close> holds the only
  reference to the handle: when the function that opened it returns, on whichever path,
  CPython drops the reference and the finaliser of the bus object shuts the handle down.
\<close>

definition drop_bus :: "world \<Rightarrow> world" where
  "drop_bus w = w\<lparr>unreleased := unreleased w - 1\<rparr>"

text \<open>\<^verbatim>\<open>setup_can_interface\<close>: three commands in order; a non-zero exit is caught.\<close>

definition setup_can_interface :: "env \<Rightarrow> world \<Rightarrow> bool call \<times> world" where
  "setup_can_interface e w =
     (let w1 = w\<lparr>setup_calls := setup_calls w + 1\<rparr>;
          failed = logging (Error ''Failed to configure CAN interface'') w1
      in case link_down e of
           CannotRun \<Rightarrow> (Raises, w1)
         | NonZero \<Rightarrow> (Returns False, failed)
         | Exit0 \<Rightarrow>
            (case set_bitrate e of
               CannotRun \<Rightarrow> (Raises, w1)
             | NonZero \<Rightarrow> (Returns False, failed)
             | Exit0 \<Rightarrow>
                (case link_up e of
                   CannotRun \<Rightarrow> (Raises, w1)
                 | NonZero \<Rightarrow> (Returns False, failed)
                 | Exit0 \<Rightarrow>
                    (Returns True, logging (Info ''CAN interface configured successfully'') w1))))"

text \<open>
  \<^verbatim>\<open>check_and_download_file\<close> is taken from the environment: its result, and the lines
  it logs. The model records when it was called.
\<close>

definition check_and_download_file :: "env \<Rightarrow> world \<Rightarrow> bool call \<times> world" where
  "check_and_download_file e w =
     (check_result e, w\<lparr>check_times := check_times w @ [clock w], log := log w @ check_log e\<rparr>)"

text \<open>
  \<^verbatim>\<open>send_can_message\<close>: every exception is caught and gives \<open>False\<close>. On return the
  local \<^verbatim>\<open>bus\<close> is dropped.
\<close>

definition send_can_message :: "env \<Rightarrow> world \<Rightarrow> bool \<times> world" where
  "send_can_message e w =
     (if \<not> send_bus_opens e then (False, logging (Error ''Failed to send CAN message'') w)
      else let w1 = open_bus w; msg = trigger_message
           in if \<not> send_succeeds e
              then (False, drop_bus (logging (Error ''Failed to send CAN message'') w1))
              else (True, drop_bus (logging (Info ''CAN message sent successfully'')
                                      (w1\<lparr>transmitted := transmitted w1 @ [msg]\<rparr>))))"

text \<open>\<^verbatim>\<open>bus.recv(timeout=1)\<close>.\<close>

definition bus_recv :: "world \<Rightarrow> recv_result \<times> world" where
  "bus_recv w =
     (let w1 = w\<lparr>recv_calls := recv_calls w + 1\<rparr>
      in case rx_script w of
           [] \<Rightarrow> (RecvNone, w1\<lparr>clock := clock w + poll_interval\<rparr>)
         | Quiet # rest \<Rightarrow> (RecvNone, w1\<lparr>clock := clock w + poll_interval, rx_script := rest\<rparr>)
         | Got d m # rest \<Rightarrow>
             (RecvMsg m, w1\<lparr>clock := clock w + min d poll_interval, rx_script := rest\<rparr>)
         | Broken d # rest \<Rightarrow>
             (RecvRaise, w1\<lparr>clock := clock w + min d poll_interval, rx_script := rest\<rparr>))"

text \<open>\<^verbatim>\<open>msg.data[0] == 1\<close>; \<open>None\<close> is the IndexError of an empty payload.\<close>

definition data0_is_1 :: "message \<Rightarrow> bool option" where
  "data0_is_1 m = (case data m of [] \<Rightarrow> None | b # _ \<Rightarrow> Some (b = 1))"

text \<open>
  The acknowledgement test of the loop body, with Python's evaluation order: the payload
  is read only when the test of the identifier has passed.
\<close>

fun valid_response :: "variant \<Rightarrow> message \<Rightarrow> bool option" where
  "valid_response FixedSource m =
     (let source_addr = arbitration_id m AND 0xFF
      in if source_addr = 3 then data0_is_1 m else Some False)"
| "valid_response PgnGroup m =
     (if arbitration_id m AND 0x1FFFF00 = 0x18FF14FB00 then data0_is_1 m else Some False)"

datatype wait_end = ValidResponse | DeadlinePassed | ExceptionRaised

text \<open>
  The loop test \<^verbatim>\<open>time.time() - start_time < timeout\<close>. The script evaluates it on
  floating-point seconds, the model keeps whole milliseconds. The two agree except at the
  instant at which exactly the timeout has passed: there the rounding of the two clock
  readings decides the test (\<^verbatim>\<open>128.003 - 8.003\<close> is \<^verbatim>\<open>119.99999999999999\<close>, below
  \<^verbatim>\<open>120\<close>, where \<^verbatim>\<open>120.0 - 0.0\<close> is not), and the environment says which way it goes.
\<close>

definition within_timeout :: "variant \<Rightarrow> env \<Rightarrow> nat \<Rightarrow> world \<Rightarrow> bool" where
  "within_timeout v e start_time w =
     (clock w - start_time < timeout v \<or>
      (clock w - start_time = timeout v \<and> deadline_rounds_below e))"

text \<open>
  The \<^verbatim>\<open>while time.time() - start_time < timeout\<close> loop of \<^verbatim>\<open>wait_for_response\<close>,
  with the three ways it is left.
\<close>

function poll_loop :: "variant \<Rightarrow> env \<Rightarrow> nat \<Rightarrow> world \<Rightarrow> wait_end \<times> world" where
  "poll_loop v e start_time w =
     (if within_timeout v e start_time w then
        (case bus_recv w of
           (RecvNone, w') \<Rightarrow> poll_loop v e start_time w'
         | (RecvRaise, w') \<Rightarrow> (ExceptionRaised, w')
         | (RecvMsg msg, w') \<Rightarrow>
             (case valid_response v msg of
                None \<Rightarrow> (ExceptionRaised, w')
              | Some True \<Rightarrow> (ValidResponse, w')
              | Some False \<Rightarrow> poll_loop v e start_time w'))
      else (DeadlinePassed, w))"
  by pat_completeness auto

termination poll_loop
proof (relation "measures [\<lambda>(v, e, s, w). length (rx_script w),
                           \<lambda>(v, e, s, w). s + timeout v + 1 - clock w]", goal_cases)
  case 1
  show ?case by simp
next
  case (2 v e s w r w')
  then show ?case
    by (auto simp: bus_recv_def Let_def poll_interval_def within_timeout_def
             split: list.splits rx.splits)
next
  case (3 v e s w r w' msg)
  then show ?case
    by (auto simp: bus_recv_def Let_def poll_interval_def within_timeout_def
             split: list.splits rx.splits)
qed

declare poll_loop.simps [simp del]

text \<open>
  \<^verbatim>\<open>wait_for_response\<close>: the bus is opened, the loop runs, and every exception (a failed
  construction of the bus included) is caught and gives \<open>False\<close>. The text of the
  exception that the source appends to an error line is left out of the log. On return the
  local \<^verbatim>\<open>bus\<close> is dropped.
\<close>

definition wait_for_response :: "variant \<Rightarrow> env \<Rightarrow> world \<Rightarrow> bool \<times> world" where
  "wait_for_response v e w =
     (if \<not> wait_bus_opens e
      then (False, logging (Error ''Error while waiting for response'') w)
      else let w1 = open_bus w; start_time = clock w1
           in case poll_loop v e start_time w1 of
                (ValidResponse, w2) \<Rightarrow>
                  (True, drop_bus (logging (Info (if v = FixedSource
                                                  then ''Valid response received from SA: 3''
                                                  else ''Valid response received'')) w2))
              | (DeadlinePassed, w2) \<Rightarrow>
                  (False,
                   drop_bus (logging (Warning ''No valid response received within timeout'') w2))
              | (ExceptionRaised, w2) \<Rightarrow>
                  (False, drop_bus (logging (Error ''Error while waiting for response'') w2)))"

text \<open>
  \<^verbatim>\<open>send_update_command\<close>: only the non-zero exit of the updater is caught; a failing
  \<^verbatim>\<open>os.chdir\<close> reaches the caller.
\<close>

definition send_update_command :: "env \<Rightarrow> world \<Rightarrow> bool call \<times> world" where
  "send_update_command e w =
     (let w1 = w\<lparr>update_calls := update_calls w + 1\<rparr>
      in if \<not> chdir_succeeds e then (Raises, w1)
         else let w2 = sleep 1000 w1
              in case updater e of
                   CannotRun \<Rightarrow> (Raises, w2)
                 | NonZero \<Rightarrow> (Returns False, logging (Error ''Failed to execute update command'') w2)
                 | Exit0 \<Rightarrow> (Returns True, logging (Info ''Update command executed successfully'') w2))"

text \<open>The ways one pass of the body of \<^verbatim>\<open>while True\<close> in \<^verbatim>\<open>main\<close> ends.\<close>

datatype outcome =
  NoNewFile | SetupFailed | SendFailed | NoValidResponse | UpdateFailed | Completed
  | UnexpectedError

definition interval_sleep :: "world \<Rightarrow> world" where
  "interval_sleep w = sleep DOWNLOAD_CHECK_INTERVAL (w\<lparr>interval_sleeps := interval_sleeps w + 1\<rparr>)"

text \<open>The \<^verbatim>\<open>except Exception\<close> handler of the main loop.\<close>

definition unexpected :: "world \<Rightarrow> outcome \<times> world" where
  "unexpected w = (UnexpectedError, interval_sleep (logging (Error ''Unexpected error in main loop'') w))"

text \<open>
  One pass of the loop body. A \<^verbatim>\<open>continue\<close> goes back to the head of the loop, so the
  pass ends there, without the \<^verbatim>\<open>time.sleep(DOWNLOAD_CHECK_INTERVAL)\<close> at the bottom
  of the body. Keyboard interrupts are not modelled.
\<close>

definition main_iteration :: "variant \<Rightarrow> env \<Rightarrow> world \<Rightarrow> outcome \<times> world" where
  "main_iteration v e w =
     (let w0 = (if v = FixedSource then logging (Info ''Checking for new file...'') w else w)
      in case check_and_download_file e w0 of
           (Raises, w1) \<Rightarrow> unexpected w1
         | (Returns False, w1) \<Rightarrow> (NoNewFile, interval_sleep w1)
         | (Returns True, w1) \<Rightarrow>
            (case setup_can_interface e
                    (logging (Info ''New file detected, starting update process'') w1) of
               (Raises, w2) \<Rightarrow> unexpected w2
             | (Returns False, w2) \<Rightarrow>
                 (SetupFailed, logging (Error ''Failed to setup CAN interface'') w2)
             | (Returns True, w2) \<Rightarrow>
                (case send_can_message e w2 of
                   (False, w3) \<Rightarrow> (SendFailed, logging (Error ''Failed to send CAN message'') w3)
                 | (True, w3) \<Rightarrow>
                    (case wait_for_response v e w3 of
                       (False, w4) \<Rightarrow>
                         (NoValidResponse, logging (Error ''Did not receive valid response'') w4)
                     | (True, w4) \<Rightarrow>
                        (case send_update_command e w4 of
                           (Raises, w5) \<Rightarrow> unexpected w5
                         | (Returns False, w5) \<Rightarrow>
                             (UpdateFailed, logging (Error ''Failed to send update command'') w5)
                         | (Returns True, w5) \<Rightarrow>
                             (Completed,
                              interval_sleep
                                (logging (Info ''Update process completed successfully'') w5)))))))"

text \<open>
  The first passes of the main loop, one environment for each pass. The line the first
  variant logs before the loop is left out.
\<close>

fun main :: "variant \<Rightarrow> env list \<Rightarrow> world \<Rightarrow> world" where
  "main v [] w = w"
| "main v (e # es) w = main v es (snd (main_iteration v e w))"

section \<open>Notions used in the statements\<close>

text \<open>A receive result after which the loop goes round again.\<close>

definition polls_on :: "variant \<Rightarrow> recv_result \<Rightarrow> bool" where
  "polls_on v r =
     (case r of RecvNone \<Rightarrow> True | RecvRaise \<Rightarrow> False
      | RecvMsg msg \<Rightarrow> valid_response v msg = Some False)"

text \<open>
  A bus event that the loop passes over: silence, or a frame on which the
  acknowledgement test evaluates to \<open>False\<close>.
\<close>

fun passed_over :: "variant \<Rightarrow> rx \<Rightarrow> bool" where
  "passed_over v Quiet = True"
| "passed_over v (Got d m) = (valid_response v m = Some False)"
| "passed_over v (Broken d) = False"

text \<open>A bus event that is not a frame satisfying the acknowledgement test.\<close>

fun no_acknowledgement :: "variant \<Rightarrow> rx \<Rightarrow> bool" where
  "no_acknowledgement v (Got d m) = (valid_response v m \<noteq> Some True)"
| "no_acknowledgement v _ = True"

text \<open>The time one receive call takes on a bus event.\<close>

fun delay :: "rx \<Rightarrow> nat" where
  "delay Quiet = poll_interval"
| "delay (Got d m) = min d poll_interval"
| "delay (Broken d) = min d poll_interval"

text \<open>How the loop is left on a bus event that it does not pass over.\<close>

fun left_with :: "variant \<Rightarrow> rx \<Rightarrow> wait_end" where
  "left_with v (Got d m) =
     (if valid_response v m = Some True then ValidResponse else ExceptionRaised)"
| "left_with v _ = ExceptionRaised"

text \<open>A fresh state and an environment in which every collaborator succeeds.\<close>

definition world0 :: world where
  "world0 = \<lparr>clock = 0, rx_script = [], transmitted = [], opened = 0, unreleased = 0,
             recv_calls = 0,
             setup_calls = 0, update_calls = 0, check_times = [], interval_sleeps = 0,
             log = []\<rparr>"

definition env_ok :: env where
  "env_ok = \<lparr>check_result = Returns True, check_log = [], link_down = Exit0,
             set_bitrate = Exit0, link_up = Exit0, send_bus_opens = True,
             send_succeeds = True, wait_bus_opens = True, deadline_rounds_below = False,
             chdir_succeeds = True,
             updater = Exit0\<rparr>"

text \<open>
  Sample frames: the acknowledgement the second variant's comments describe, a frame of an
  unrelated parameter group sent by source address 3, the same with no payload, and a
  frame from another source.
\<close>

definition group_ack :: message where
  "group_ack =
     \<lparr>arbitration_id = 0x18FF14FB, is_extended_id = True, data = [1, 0, 0, 0, 0, 0, 0, 0]\<rparr>"

definition unrelated_from_3 :: message where
  "unrelated_from_3 =
     \<lparr>arbitration_id = 0x0CF00403, is_extended_id = True, data = [1, 0, 0, 0, 0, 0, 0, 0]\<rparr>"

definition empty_from_3 :: message where
  "empty_from_3 = \<lparr>arbitration_id = 0x0CF00403, is_extended_id = True, data = []\<rparr>"

definition other_frame :: message where
  "other_frame =
     \<lparr>arbitration_id = 0x18FF1401, is_extended_id = True, data = [0, 0, 0, 0, 0, 0, 0, 0]\<rparr>"

text \<open>
  How the \<^verbatim>\<open>try\<close> block of \<^verbatim>\<open>wait_for_response\<close> is left: a bus that cannot be
  opened raises, otherwise the loop decides.
\<close>

definition wait_ending :: "variant \<Rightarrow> env \<Rightarrow> world \<Rightarrow> wait_end" where
  "wait_ending v e w =
     (if \<not> wait_bus_opens e then ExceptionRaised
      else fst (poll_loop v e (clock (open_bus w)) (open_bus w)))"

text \<open>The states in which one pass of the main loop reaches its stages.\<close>

definition at_check :: "variant \<Rightarrow> world \<Rightarrow> world" where
  "at_check v w = (if v = FixedSource then logging (Info ''Checking for new file...'') w else w)"

definition at_setup :: "variant \<Rightarrow> env \<Rightarrow> world \<Rightarrow> world" where
  "at_setup v e w =
     logging (Info ''New file detected, starting update process'')
       (snd (check_and_download_file e (at_check v w)))"

definition at_send :: "variant \<Rightarrow> env \<Rightarrow> world \<Rightarrow> world" where
  "at_send v e w = snd (setup_can_interface e (at_setup v e w))"

definition at_wait :: "variant \<Rightarrow> env \<Rightarrow> world \<Rightarrow> world" where
  "at_wait v e w = snd (send_can_message e (at_send v e w))"

section \<open>The polling loop\<close>

lemma pgn_mask_never_matches: "(x::int) AND 0x1FFFF00 \<noteq> 0x18FF14FB00"
proof -
  have "x AND 0x1FFFF00 \<le> 0x1FFFF00" by (rule AND_upper2) simp
  then show ?thesis by linarith
qed

lemma valid_response_PgnGroup: "valid_response PgnGroup m = Some False"
  by (simp add: pgn_mask_never_matches)

lemma timeout_pos: "0 < timeout v"
  by (cases v) simp_all

lemma within_timeout_upper: "within_timeout v e s w \<Longrightarrow> clock w \<le> s + timeout v"
  using timeout_pos[of v] by (auto simp: within_timeout_def)

lemma beyond_timeout_lower: "\<not> within_timeout v e s w \<Longrightarrow> s + timeout v \<le> clock w"
  using timeout_pos[of v] by (auto simp: within_timeout_def)

lemma before_timeout_within: "clock w - s < timeout v \<Longrightarrow> within_timeout v e s w"
  by (simp add: within_timeout_def)

lemma bus_recv_clock:
  "bus_recv w = (r, w') \<Longrightarrow> clock w \<le> clock w' \<and> clock w' \<le> clock w + poll_interval"
  by (auto simp: bus_recv_def Let_def split: list.splits rx.splits)

lemma bus_recv_frame:
  "bus_recv w = (r, w') \<Longrightarrow>
     transmitted w' = transmitted w \<and> opened w' = opened w \<and>
     unreleased w' = unreleased w \<and>
     setup_calls w' = setup_calls w \<and> update_calls w' = update_calls w \<and>
     check_times w' = check_times w \<and> interval_sleeps w' = interval_sleeps w \<and>
     log w' = log w"
  by (auto simp: bus_recv_def Let_def split: list.splits rx.splits)

lemma poll_loop_deadline:
  "\<not> within_timeout v e s w \<Longrightarrow> poll_loop v e s w = (DeadlinePassed, w)"
  by (subst poll_loop.simps) simp

lemma poll_loop_step:
  "within_timeout v e s w \<Longrightarrow> bus_recv w = (r, w') \<Longrightarrow>
   poll_loop v e s w =
     (case r of
        RecvNone \<Rightarrow> poll_loop v e s w'
      | RecvRaise \<Rightarrow> (ExceptionRaised, w')
      | RecvMsg msg \<Rightarrow>
          (case valid_response v msg of
             None \<Rightarrow> (ExceptionRaised, w')
           | Some True \<Rightarrow> (ValidResponse, w')
           | Some False \<Rightarrow> poll_loop v e s w'))"
  by (subst poll_loop.simps) simp

text \<open>Induction along the loop, for a fixed variant, environment and start time.\<close>

lemma poll_loop_induct [case_names deadline step]:
  assumes D: "\<And>w. \<not> within_timeout v e s w \<Longrightarrow> P w"
    and S: "\<And>w r w'. within_timeout v e s w \<Longrightarrow> bus_recv w = (r, w') \<Longrightarrow>
              (polls_on v r \<Longrightarrow> P w') \<Longrightarrow> P w"
  shows "P w"
proof -
  have "v' = v \<Longrightarrow> e' = e \<Longrightarrow> s' = s \<Longrightarrow> P w" for v' e' s'
  proof (induction v' e' s' w rule: poll_loop.induct)
    case (1 v' e' s' w)
    show ?case
    proof (cases "within_timeout v e s w")
      case False
      then show ?thesis by (rule D)
    next
      case True
      obtain r w' where rw: "bus_recv w = (r, w')" by (cases "bus_recv w")
      show ?thesis
      proof (rule S[OF True rw])
        assume "polls_on v r"
        then show "P w'"
        proof (cases r)
          case RecvNone
          with 1(1)[OF _ rw[symmetric]] 1(3,4,5) True show ?thesis by simp
        next
          case (RecvMsg m)
          with \<open>polls_on v r\<close> have "valid_response v' m = Some False"
            using 1(3) by (simp add: polls_on_def)
          with 1(2)[OF _ rw[symmetric] RecvMsg, of False] 1(3,4,5) True
          show ?thesis by simp
        next
          case RecvRaise
          with \<open>polls_on v r\<close> show ?thesis by (simp add: polls_on_def)
        qed
      qed
    qed
  qed
  then show ?thesis by simp
qed

lemma poll_loop_never_valid_PgnGroup: "fst (poll_loop PgnGroup e s w) \<noteq> ValidResponse"
proof (induction w rule: poll_loop_induct[where v = PgnGroup and e = e and s = s])
  case (deadline w)
  then show ?case by (simp add: poll_loop_deadline)
next
  case (step w r w')
  then show ?case
    by (cases r)
       (simp_all add: poll_loop_step polls_on_def valid_response_PgnGroup
                 del: valid_response.simps)
qed

lemma poll_loop_frame:
  "transmitted (snd (poll_loop v e s w)) = transmitted w \<and>
   opened (snd (poll_loop v e s w)) = opened w \<and>
   unreleased (snd (poll_loop v e s w)) = unreleased w \<and>
   setup_calls (snd (poll_loop v e s w)) = setup_calls w \<and>
   update_calls (snd (poll_loop v e s w)) = update_calls w \<and>
   check_times (snd (poll_loop v e s w)) = check_times w \<and>
   interval_sleeps (snd (poll_loop v e s w)) = interval_sleeps w \<and>
   log (snd (poll_loop v e s w)) = log w"
proof (induction w rule: poll_loop_induct[where v = v and e = e and s = s])
  case (deadline w)
  then show ?case by (simp add: poll_loop_deadline)
next
  case (step w r w')
  from bus_recv_frame[OF step(2)] step(1,3) show ?case
    by (cases r)
       (auto simp: poll_loop_step[OF step(1,2)] polls_on_def split: option.splits bool.splits)
qed

lemma poll_loop_upper:
  "clock w \<le> s + timeout v + poll_interval \<Longrightarrow>
   clock (snd (poll_loop v e s w)) \<le> s + timeout v + poll_interval"
proof (induction w rule: poll_loop_induct[where v = v and e = e and s = s])
  case (deadline w)
  then show ?case by (simp add: poll_loop_deadline)
next
  case (step w r w')
  from within_timeout_upper[OF step(1)] bus_recv_clock[OF step(2)]
  have "clock w' \<le> s + timeout v + poll_interval" by arith
  with step(3) show ?case
    by (cases r)
       (auto simp: poll_loop_step[OF step(1,2)] polls_on_def split: option.splits bool.splits)
qed

lemma poll_loop_lower:
  "fst (poll_loop v e s w) = DeadlinePassed \<Longrightarrow>
   s + timeout v \<le> clock (snd (poll_loop v e s w))"
proof (induction w rule: poll_loop_induct[where v = v and e = e and s = s])
  case (deadline w)
  with beyond_timeout_lower[of v e s w] show ?case by (simp add: poll_loop_deadline)
next
  case (step w r w')
  from step(3,4) show ?case
    by (cases r)
       (auto simp: poll_loop_step[OF step(1,2)] polls_on_def split: option.splits bool.splits)
qed

lemma bus_recv_passed_over:
  "list_all (passed_over v) (rx_script w) \<Longrightarrow> bus_recv w = (r, w') \<Longrightarrow>
   polls_on v r \<and> list_all (passed_over v) (rx_script w')"
  by (auto simp: bus_recv_def Let_def polls_on_def simp del: valid_response.simps
           split: list.splits rx.splits)

lemma poll_loop_passed_over:
  "list_all (passed_over v) (rx_script w) \<Longrightarrow> fst (poll_loop v e s w) = DeadlinePassed"
proof (induction w rule: poll_loop_induct[where v = v and e = e and s = s])
  case (deadline w)
  then show ?case by (simp add: poll_loop_deadline)
next
  case (step w r w')
  from bus_recv_passed_over[OF step(4,2)] step(3) show ?case
    by (cases r)
       (auto simp: poll_loop_step[OF step(1,2)] polls_on_def split: option.splits bool.splits)
qed

lemma poll_loop_first_stop:
  "rx_script w = pre @ x # post \<Longrightarrow> list_all (passed_over v) pre \<Longrightarrow>
   \<not> passed_over v x \<Longrightarrow>
   clock w + sum_list (map delay pre) - s < timeout v \<Longrightarrow>
   poll_loop v e s w =
     (left_with v x,
      w\<lparr>recv_calls := recv_calls w + length pre + 1,
        clock := clock w + sum_list (map delay pre) + delay x,
        rx_script := post\<rparr>)"
proof (induction pre arbitrary: w)
  case Nil
  then have c: "within_timeout v e s w" by (simp add: before_timeout_within)
  let ?w' = "w\<lparr>recv_calls := recv_calls w + 1, clock := clock w + delay x,
                rx_script := post\<rparr>"
  show ?case
  proof (cases x)
    case Quiet
    with Nil(3) show ?thesis by simp
  next
    case (Got d m)
    then have r: "bus_recv w = (RecvMsg m, ?w')"
      using Nil(1) by (simp add: bus_recv_def)
    show ?thesis using Nil(3) Got
      by (auto simp: poll_loop_step[OF c r] simp del: valid_response.simps
               split: option.splits bool.splits)
  next
    case (Broken d)
    then have r: "bus_recv w = (RecvRaise, ?w')"
      using Nil(1) by (simp add: bus_recv_def)
    show ?thesis using Broken by (simp add: poll_loop_step[OF c r])
  qed
next
  case (Cons y pre)
  then have "clock w - s < timeout v" by arith
  then have c: "within_timeout v e s w" by (rule before_timeout_within)
  let ?w' = "w\<lparr>recv_calls := recv_calls w + 1, clock := clock w + delay y,
                rx_script := pre @ x # post\<rparr>"
  obtain r where r: "bus_recv w = (r, ?w')" and p: "polls_on v r"
    using Cons(2,3)
    by (cases y) (auto simp: bus_recv_def polls_on_def simp del: valid_response.simps)
  have "poll_loop v e s w = poll_loop v e s ?w'"
    using p by (cases r) (auto simp: poll_loop_step[OF c r] polls_on_def)
  also have "\<dots> = (left_with v x,
      ?w'\<lparr>recv_calls := recv_calls ?w' + length pre + 1,
        clock := clock ?w' + sum_list (map delay pre) + delay x,
        rx_script := post\<rparr>)"
    using Cons(3,4,5) by (intro Cons.IH) (auto simp: add.assoc)
  finally show ?case by (simp add: add.assoc add.commute)
qed

text \<open>
  A silent bus: the loop polls until the timeout has passed, and once more when the
  floating-point test still holds at that instant.
\<close>

lemma poll_loop_silent:
  "rx_script w = [] \<Longrightarrow> clock w + k * poll_interval = s + timeout v \<Longrightarrow>
   poll_loop v e s w =
     (DeadlinePassed,
      w\<lparr>recv_calls := recv_calls w + k + (if deadline_rounds_below e then 1 else 0),
        clock := s + timeout v + (if deadline_rounds_below e then poll_interval else 0)\<rparr>)"
proof (induction k arbitrary: w)
  case 0
  then have c: "clock w = s + timeout v" by simp
  show ?case
  proof (cases "deadline_rounds_below e")
    case False
    with c have "\<not> within_timeout v e s w" by (simp add: within_timeout_def)
    then show ?thesis using False c[symmetric] by (simp add: poll_loop_deadline)
  next
    case True
    let ?w' = "w\<lparr>recv_calls := recv_calls w + 1, clock := clock w + poll_interval\<rparr>"
    from True c have w: "within_timeout v e s w" by (simp add: within_timeout_def)
    have r: "bus_recv w = (RecvNone, ?w')" using 0(1) by (simp add: bus_recv_def)
    have "\<not> within_timeout v e s ?w'"
      using c by (simp add: within_timeout_def poll_interval_def)
    then have "poll_loop v e s ?w' = (DeadlinePassed, ?w')" by (rule poll_loop_deadline)
    then show ?thesis using True c by (simp add: poll_loop_step[OF w r])
  qed
next
  case (Suc k)
  let ?w' = "w\<lparr>recv_calls := recv_calls w + 1, clock := clock w + poll_interval\<rparr>"
  from Suc(3) timeout_pos[of v] have "clock w - s < timeout v"
    by (simp add: poll_interval_def)
  then have w: "within_timeout v e s w" by (rule before_timeout_within)
  have r: "bus_recv w = (RecvNone, ?w')" using Suc(2) by (simp add: bus_recv_def)
  have "poll_loop v e s ?w' =
     (DeadlinePassed,
      ?w'\<lparr>recv_calls := recv_calls ?w' + k + (if deadline_rounds_below e then 1 else 0),
        clock := s + timeout v + (if deadline_rounds_below e then poll_interval else 0)\<rparr>)"
    using Suc(2,3) by (intro Suc.IH) simp_all
  then show ?case by (simp add: poll_loop_step[OF w r])
qed

section \<open>Waiting for the response\<close>

lemma wait_for_response_by_ending:
  "wait_for_response v e w =
     (case wait_ending v e w of
        ValidResponse \<Rightarrow>
          (True, drop_bus (logging (Info (if v = FixedSource
                                          then ''Valid response received from SA: 3''
                                          else ''Valid response received''))
                             (snd (poll_loop v e (clock w) (open_bus w)))))
      | DeadlinePassed \<Rightarrow>
          (False, drop_bus (logging (Warning ''No valid response received within timeout'')
                              (snd (poll_loop v e (clock w) (open_bus w)))))
      | ExceptionRaised \<Rightarrow>
          (False,
           if wait_bus_opens e
           then drop_bus (logging (Error ''Error while waiting for response'')
                            (snd (poll_loop v e (clock w) (open_bus w))))
           else logging (Error ''Error while waiting for response'') w))"
  by (simp add: wait_for_response_def wait_ending_def open_bus_def Let_def
           split: prod.splits wait_end.splits)

lemma wait_ending_PgnGroup: "wait_ending PgnGroup e w \<noteq> ValidResponse"
  by (simp add: wait_ending_def poll_loop_never_valid_PgnGroup)

lemma wait_for_response_PgnGroup: "fst (wait_for_response PgnGroup e w) = False"
  using wait_ending_PgnGroup[of e w]
  by (cases "wait_ending PgnGroup e w") (simp_all add: wait_for_response_by_ending)

lemma wait_frame:
  "transmitted (snd (wait_for_response v e w)) = transmitted w \<and>
   setup_calls (snd (wait_for_response v e w)) = setup_calls w \<and>
   update_calls (snd (wait_for_response v e w)) = update_calls w \<and>
   check_times (snd (wait_for_response v e w)) = check_times w \<and>
   interval_sleeps (snd (wait_for_response v e w)) = interval_sleeps w"
  using poll_loop_frame[of v e "clock w" "open_bus w"]
  by (cases "wait_ending v e w")
     (simp_all add: wait_for_response_by_ending logging_def open_bus_def drop_bus_def)


lemma wait_clock_upper:
  "clock (snd (wait_for_response v e w)) \<le> clock w + timeout v + poll_interval"
proof -
  have "clock (open_bus w) \<le> clock w + timeout v + poll_interval"
    by (simp add: open_bus_def)
  from poll_loop_upper[OF this] show ?thesis
    by (cases "wait_ending v e w")
       (auto simp: wait_for_response_by_ending logging_def drop_bus_def)
qed

lemma wait_clock_lower:
  "wait_ending v e w = DeadlinePassed \<Longrightarrow>
   clock w + timeout v \<le> clock (snd (wait_for_response v e w))"
  using poll_loop_lower[of v e "clock w" "open_bus w"]
  by (auto simp: wait_for_response_by_ending logging_def drop_bus_def wait_ending_def
                 open_bus_def
           split: if_splits)

lemma wait_passed_over:
  "wait_bus_opens e \<Longrightarrow> list_all (passed_over v) (rx_script w) \<Longrightarrow>
   wait_ending v e w = DeadlinePassed"
  using poll_loop_passed_over[of v "open_bus w" e "clock (open_bus w)"]
  by (simp add: wait_ending_def open_bus_def)

lemma wait_first_stop:
  assumes "wait_bus_opens e" "rx_script w = pre @ x # post"
    "list_all (passed_over v) pre" "\<not> passed_over v x"
    "sum_list (map delay pre) < timeout v"
  shows "wait_ending v e w = left_with v x"
    and "snd (poll_loop v e (clock w) (open_bus w)) =
         w\<lparr>opened := opened w + 1, unreleased := unreleased w + 1,
           recv_calls := recv_calls w + length pre + 1,
           clock := clock w + sum_list (map delay pre) + delay x, rx_script := post\<rparr>"
proof -
  have "poll_loop v e (clock w) (open_bus w) =
     (left_with v x,
      (open_bus w)\<lparr>recv_calls := recv_calls (open_bus w) + length pre + 1,
        clock := clock (open_bus w) + sum_list (map delay pre) + delay x,
        rx_script := post\<rparr>)"
    using assms by (intro poll_loop_first_stop) (simp_all add: open_bus_def)
  then show "wait_ending v e w = left_with v x"
    and "snd (poll_loop v e (clock w) (open_bus w)) =
         w\<lparr>opened := opened w + 1, unreleased := unreleased w + 1,
           recv_calls := recv_calls w + length pre + 1,
           clock := clock w + sum_list (map delay pre) + delay x, rx_script := post\<rparr>"
    using assms(1) by (simp_all add: wait_ending_def open_bus_def)
qed

text \<open>The wait on a silent bus, from start to return.\<close>

lemma wait_silent:
  assumes "wait_bus_opens e" "rx_script w = []" "k * poll_interval = timeout v"
  shows "wait_for_response v e w =
     (False,
      w\<lparr>opened := opened w + 1,
        recv_calls := recv_calls w + k + (if deadline_rounds_below e then 1 else 0),
        clock := clock w + timeout v + (if deadline_rounds_below e then poll_interval else 0),
        log := log w @ [Warning ''No valid response received within timeout'']\<rparr>)"
proof -
  have "poll_loop v e (clock w) (open_bus w) =
     (DeadlinePassed,
      (open_bus w)\<lparr>recv_calls := recv_calls (open_bus w) + k
                         + (if deadline_rounds_below e then 1 else 0),
        clock := clock w + timeout v + (if deadline_rounds_below e then poll_interval else 0)\<rparr>)"
    using assms(2,3) by (intro poll_loop_silent) (simp_all add: open_bus_def)
  then show ?thesis
    using assms(1)
    by (simp add: wait_for_response_def open_bus_def drop_bus_def logging_def)
qed

section \<open>The stages of one pass\<close>

lemma setup_result:
  "fst (setup_can_interface e w) = Returns True \<longleftrightarrow>
   link_down e = Exit0 \<and> set_bitrate e = Exit0 \<and> link_up e = Exit0"
  by (simp add: setup_can_interface_def Let_def split: proc.splits)

lemma setup_frame:
  "transmitted (snd (setup_can_interface e w)) = transmitted w \<and>
   opened (snd (setup_can_interface e w)) = opened w \<and>
   unreleased (snd (setup_can_interface e w)) = unreleased w \<and>
   recv_calls (snd (setup_can_interface e w)) = recv_calls w \<and>
   update_calls (snd (setup_can_interface e w)) = update_calls w \<and>
   interval_sleeps (snd (setup_can_interface e w)) = interval_sleeps w \<and>
   clock (snd (setup_can_interface e w)) = clock w"
  by (simp add: setup_can_interface_def logging_def Let_def split: proc.splits)

lemma send_result: "fst (send_can_message e w) = (send_bus_opens e \<and> send_succeeds e)"
  by (simp add: send_can_message_def Let_def)

lemma send_frame:
  "opened (snd (send_can_message e w)) = opened w + (if send_bus_opens e then 1 else 0) \<and>
   unreleased (snd (send_can_message e w)) = unreleased w \<and>
   transmitted (snd (send_can_message e w)) =
     transmitted w @ (if fst (send_can_message e w) then [trigger_message] else []) \<and>
   recv_calls (snd (send_can_message e w)) = recv_calls w \<and>
   update_calls (snd (send_can_message e w)) = update_calls w \<and>
   interval_sleeps (snd (send_can_message e w)) = interval_sleeps w \<and>
   clock (snd (send_can_message e w)) = clock w"
  by (simp add: send_can_message_def logging_def open_bus_def drop_bus_def Let_def)

lemma update_frame:
  "transmitted (snd (send_update_command e w)) = transmitted w \<and>
   unreleased (snd (send_update_command e w)) = unreleased w \<and>
   update_calls (snd (send_update_command e w)) = update_calls w + 1"
  by (simp add: send_update_command_def logging_def sleep_def Let_def split: proc.splits)

lemma at_stage_update_calls:
  "update_calls (at_check v w) = update_calls w"
  "update_calls (at_setup v e w) = update_calls w"
  "update_calls (at_send v e w) = update_calls w"
  "update_calls (at_wait v e w) = update_calls w"
  by (simp_all add: at_wait_def at_send_def at_setup_def at_check_def send_frame setup_frame
        check_and_download_file_def logging_def)

lemma at_stage_transmitted:
  "transmitted (at_check v w) = transmitted w"
  "transmitted (at_setup v e w) = transmitted w"
  "transmitted (at_send v e w) = transmitted w"
  by (simp_all add: at_send_def at_setup_def at_check_def setup_frame
        check_and_download_file_def logging_def)


text \<open>One pass of the main loop, stage by stage.\<close>

lemma main_iteration_stages:
  "main_iteration v e w =
     (case check_result e of
        Raises \<Rightarrow> unexpected (snd (check_and_download_file e (at_check v w)))
      | Returns False \<Rightarrow> (NoNewFile, interval_sleep (snd (check_and_download_file e (at_check v w))))
      | Returns True \<Rightarrow>
         (case fst (setup_can_interface e (at_setup v e w)) of
            Raises \<Rightarrow> unexpected (at_send v e w)
          | Returns False \<Rightarrow>
              (SetupFailed, logging (Error ''Failed to setup CAN interface'') (at_send v e w))
          | Returns True \<Rightarrow>
             (if \<not> fst (send_can_message e (at_send v e w))
              then (SendFailed, logging (Error ''Failed to send CAN message'') (at_wait v e w))
              else if \<not> fst (wait_for_response v e (at_wait v e w))
              then (NoValidResponse,
                    logging (Error ''Did not receive valid response'')
                      (snd (wait_for_response v e (at_wait v e w))))
              else (case send_update_command e (snd (wait_for_response v e (at_wait v e w))) of
                      (Raises, w5) \<Rightarrow> unexpected w5
                    | (Returns False, w5) \<Rightarrow>
                        (UpdateFailed, logging (Error ''Failed to send update command'') w5)
                    | (Returns True, w5) \<Rightarrow>
                        (Completed,
                         interval_sleep
                           (logging (Info ''Update process completed successfully'') w5))))))"
proof (cases "check_result e")
  case Raises
  then show ?thesis
    by (simp add: main_iteration_def at_check_def check_and_download_file_def Let_def)
next
  case (Returns fresh)
  note defs = at_wait_def at_send_def at_setup_def at_check_def check_and_download_file_def
  show ?thesis
  proof (cases fresh)
    case False
    with Returns show ?thesis
      by (simp add: main_iteration_def at_check_def check_and_download_file_def Let_def)
  next
    case True
    define c where "c = fst (setup_can_interface e (at_setup v e w))"
    define w2 where "w2 = at_send v e w"
    define b3 where "b3 = fst (send_can_message e w2)"
    define w3 where "w3 = at_wait v e w"
    define b4 where "b4 = fst (wait_for_response v e w3)"
    define w4 where "w4 = snd (wait_for_response v e w3)"
    have st: "setup_can_interface e (at_setup v e w) = (c, w2)"
      by (simp add: c_def w2_def at_send_def)
    have sd: "send_can_message e w2 = (b3, w3)"
      by (simp add: b3_def w3_def w2_def at_wait_def)
    have wt: "wait_for_response v e w3 = (b4, w4)"
      by (simp add: b4_def w4_def)
    have lhs: "main_iteration v e w =
        (case c of
           Raises \<Rightarrow> unexpected w2
         | Returns False \<Rightarrow> (SetupFailed, logging (Error ''Failed to setup CAN interface'') w2)
         | Returns True \<Rightarrow>
            (if \<not> b3 then (SendFailed, logging (Error ''Failed to send CAN message'') w3)
             else if \<not> b4
             then (NoValidResponse, logging (Error ''Did not receive valid response'') w4)
             else (case send_update_command e w4 of
                      (Raises, w5) \<Rightarrow> unexpected w5
                    | (Returns False, w5) \<Rightarrow>
                        (UpdateFailed, logging (Error ''Failed to send update command'') w5)
                    | (Returns True, w5) \<Rightarrow>
                        (Completed,
                         interval_sleep
                           (logging (Info ''Update process completed successfully'') w5)))))"
    proof (cases c)
      case Raises
      with Returns True st[unfolded defs] show ?thesis
        by (simp add: main_iteration_def check_and_download_file_def Let_def)
    next
      case (Returns ok)
      show ?thesis
      proof (cases ok)
        case False
        with \<open>c = Returns ok\<close> \<open>check_result e = Returns fresh\<close> True st[unfolded defs]
        show ?thesis
          by (simp add: main_iteration_def check_and_download_file_def Let_def)
      next
        case ok: True
        show ?thesis
        proof (cases b3)
          case False
          with ok \<open>c = Returns ok\<close> \<open>check_result e = Returns fresh\<close> True st[unfolded defs] sd
          show ?thesis
            by (simp add: main_iteration_def check_and_download_file_def Let_def)
        next
          case b3: True
          show ?thesis
          proof (cases b4)
            case False
            with b3 ok \<open>c = Returns ok\<close> \<open>check_result e = Returns fresh\<close> True
              st[unfolded defs] sd wt
            show ?thesis
              by (simp add: main_iteration_def check_and_download_file_def Let_def)
          next
            case b4: True
            with b3 ok \<open>c = Returns ok\<close> \<open>check_result e = Returns fresh\<close> True
              st[unfolded defs] sd wt
            show ?thesis
              by (simp add: main_iteration_def check_and_download_file_def Let_def)
          qed
        qed
      qed
    qed
    show ?thesis
      unfolding lhs c_def w2_def b3_def w3_def b4_def w4_def using Returns True
      by simp
  qed
qed

lemma unexpected_update_calls: "update_calls (snd (unexpected w)) = update_calls w"
  by (simp add: unexpected_def interval_sleep_def sleep_def logging_def)

text \<open>The definitions that evaluate a run on a given state.\<close>

lemmas run_defs =
  main_iteration_def check_and_download_file_def setup_can_interface_def send_can_message_def
  send_update_command_def wait_for_response_def unexpected_def interval_sleep_def sleep_def
  logging_def open_bus_def drop_bus_def within_timeout_def bus_recv_def data0_is_1_def
  poll_interval_def DOWNLOAD_CHECK_INTERVAL_def env_ok_def world0_def

section \<open>Claims about the wait\<close>

text \<open>
  C1. In the variant that recognises the acknowledgement by its parameter group, the wait
  should accept every frame of the group of identifier 0x18FF14FB whose payload byte 0 is 1.
  The code masks with 0x1FFFF00 and compares with 0x18FF14FB00, a value the masked
  identifier never takes: the frame 0x18FF14FB with payload byte 0 equal to 1 is rejected,
  and the wait returns \<open>False\<close> whatever the bus delivers after it.
\<close>

theorem pgn_group_acknowledgement_never_accepted:
  "valid_response PgnGroup group_ack = Some False \<and>
   fst (wait_for_response PgnGroup e (w\<lparr>rx_script := Got d group_ack # rest\<rparr>)) = False"
  by (simp add: valid_response_PgnGroup wait_for_response_PgnGroup del: valid_response.simps)

text \<open>
  C3. The claim that the wait returns different values at a timeout and at a channel error
  fails: on a silent bus the loop is left through the deadline, on a failing channel through
  the exception, and both runs return \<open>False\<close>.
\<close>

theorem timeout_and_error_same_value_counterexample:
  "wait_ending FixedSource env_ok world0 = DeadlinePassed \<and>
   wait_ending FixedSource env_ok (world0\<lparr>rx_script := [Broken 0]\<rparr>) = ExceptionRaised \<and>
   fst (wait_for_response FixedSource env_ok world0) =
     fst (wait_for_response FixedSource env_ok (world0\<lparr>rx_script := [Broken 0]\<rparr>))"
proof -
  have a: "wait_ending FixedSource env_ok world0 = DeadlinePassed"
    by (rule wait_passed_over) (simp_all add: env_ok_def world0_def)
  have b: "wait_ending FixedSource env_ok (world0\<lparr>rx_script := [Broken 0]\<rparr>) = ExceptionRaised"
    using wait_first_stop(1)[of env_ok "world0\<lparr>rx_script := [Broken 0]\<rparr>" "[]" "Broken 0" "[]"
                               FixedSource]
    by (simp add: env_ok_def)
  show ?thesis using a b by (simp add: wait_for_response_by_ending)
qed

text \<open>
  C3, as the code has it. Whenever the wait ends through the deadline or through an
  exception it returns \<open>False\<close>; the two cases differ in the last line logged, a warning
  for the timeout and an error for the exception.
\<close>

theorem timeout_and_error_differ_in_log_only:
  "(wait_ending v e w = DeadlinePassed \<longrightarrow>
      fst (wait_for_response v e w) = False \<and>
      last (log (snd (wait_for_response v e w))) =
        Warning ''No valid response received within timeout'') \<and>
   (wait_ending v e w = ExceptionRaised \<longrightarrow>
      fst (wait_for_response v e w) = False \<and>
      last (log (snd (wait_for_response v e w))) = Error ''Error while waiting for response'')"
  by (simp add: wait_for_response_by_ending logging_def drop_bus_def)

theorem timeout_and_error_differ_in_log_only_witness:
  "wait_ending PgnGroup env_ok world0 = DeadlinePassed \<and>
   fst (wait_for_response PgnGroup env_ok world0) = False \<and>
   last (log (snd (wait_for_response PgnGroup env_ok world0))) =
     Warning ''No valid response received within timeout'' \<and>
   wait_ending PgnGroup env_ok (world0\<lparr>rx_script := [Broken 0]\<rparr>) = ExceptionRaised \<and>
   fst (wait_for_response PgnGroup env_ok (world0\<lparr>rx_script := [Broken 0]\<rparr>)) = False \<and>
   last (log (snd (wait_for_response PgnGroup env_ok (world0\<lparr>rx_script := [Broken 0]\<rparr>)))) =
     Error ''Error while waiting for response''"
proof -
  have a: "wait_ending PgnGroup env_ok world0 = DeadlinePassed"
    by (rule wait_passed_over) (simp_all add: env_ok_def world0_def)
  have b: "wait_ending PgnGroup env_ok (world0\<lparr>rx_script := [Broken 0]\<rparr>) = ExceptionRaised"
    using wait_first_stop(1)[of env_ok "world0\<lparr>rx_script := [Broken 0]\<rparr>" "[]" "Broken 0" "[]"
                               PgnGroup]
    by (simp add: env_ok_def)
  show ?thesis
    using a b timeout_and_error_differ_in_log_only[of PgnGroup env_ok world0]
      timeout_and_error_differ_in_log_only[of PgnGroup env_ok "world0\<lparr>rx_script := [Broken 0]\<rparr>"]
    by simp
qed

text \<open>
  C4. A frame that does not satisfy the acknowledgement test should be discarded, also when
  its payload is empty. In the first variant a frame from source address 3 with an empty
  payload raises on \<^verbatim>\<open>msg.data[0]\<close>: the wait returns \<open>False\<close> on its first receive
  call and leaves unread the acknowledgement that follows, which alone makes the wait
  return \<open>True\<close>.
\<close>

theorem empty_payload_ends_the_wait:
  "valid_response FixedSource empty_from_3 \<noteq> Some True \<and>
   fst (wait_for_response FixedSource env_ok
          (world0\<lparr>rx_script := [Got 0 unrelated_from_3]\<rparr>)) = True \<and>
   wait_for_response FixedSource env_ok
     (world0\<lparr>rx_script := [Got 0 empty_from_3, Got 0 unrelated_from_3]\<rparr>) =
     (False, world0\<lparr>rx_script := [Got 0 unrelated_from_3], opened := 1, recv_calls := 1,
               log := [Error ''Error while waiting for response'']\<rparr>)"
  by (simp add: wait_for_response_def env_ok_def world0_def open_bus_def drop_bus_def
        within_timeout_def poll_loop.simps bus_recv_def logging_def empty_from_3_def
        unrelated_from_3_def poll_interval_def data0_is_1_def)

text \<open>
  C6. The claim that the wait, when no frame satisfying the acknowledgement test is ever
  delivered, returns only once the timeout has elapsed fails: a channel that raises on the
  first receive call delivers no such frame, and the wait returns \<open>False\<close> at once.
\<close>

theorem early_return_without_acknowledgement_counterexample:
  "list_all (no_acknowledgement FixedSource) [Broken 0] \<and>
   fst (wait_for_response FixedSource env_ok (world0\<lparr>rx_script := [Broken 0]\<rparr>)) = False \<and>
   clock (snd (wait_for_response FixedSource env_ok (world0\<lparr>rx_script := [Broken 0]\<rparr>))) = 0 \<and>
   clock world0 = 0 \<and> timeout FixedSource = 120000"
  by (simp add: wait_for_response_def env_ok_def world0_def open_bus_def drop_bus_def
        within_timeout_def poll_loop.simps bus_recv_def logging_def poll_interval_def)

text \<open>
  C6, as the code has it. No run of the wait lasts longer than the timeout plus one poll
  interval; a run that ends through the deadline ends no earlier than the timeout; and
  when the bus opens and every receive call meets silence or a frame on which the
  acknowledgement test evaluates to \<open>False\<close>, the wait ends through the deadline and
  returns \<open>False\<close>. That the wait ends at all is the totality of \<open>poll_loop\<close>.
\<close>

theorem wait_times_out_on_time:
  "clock (snd (wait_for_response v e w)) \<le> clock w + timeout v + poll_interval \<and>
   (wait_ending v e w = DeadlinePassed \<longrightarrow>
      clock w + timeout v \<le> clock (snd (wait_for_response v e w))) \<and>
   (wait_bus_opens e \<and> list_all (passed_over v) (rx_script w) \<longrightarrow>
      wait_ending v e w = DeadlinePassed \<and> fst (wait_for_response v e w) = False)"
  using wait_clock_upper[of v e w] wait_clock_lower[of v e w] wait_passed_over[of e v w]
  by (auto simp: wait_for_response_by_ending)

text \<open>
  Three runs: frames that are passed over; a silent bus with both clock readings exact,
  which ends after 120 receive calls when the timeout has passed; and a silent bus on which
  the floating-point test still holds at that instant, which ends after 121 receive calls,
  one poll interval after the timeout.
\<close>

theorem wait_times_out_on_time_witness:
  "wait_bus_opens env_ok \<and>
   list_all (passed_over FixedSource) (rx_script (world0\<lparr>rx_script := [Quiet, Got 5 other_frame]\<rparr>)) \<and>
   wait_ending FixedSource env_ok (world0\<lparr>rx_script := [Quiet, Got 5 other_frame]\<rparr>) = DeadlinePassed \<and>
   fst (wait_for_response FixedSource env_ok (world0\<lparr>rx_script := [Quiet, Got 5 other_frame]\<rparr>)) = False \<and>
   120000 \<le> clock (snd (wait_for_response FixedSource env_ok
                            (world0\<lparr>rx_script := [Quiet, Got 5 other_frame]\<rparr>))) \<and>
   clock (snd (wait_for_response FixedSource env_ok
                 (world0\<lparr>rx_script := [Quiet, Got 5 other_frame]\<rparr>))) \<le> 121000 \<and>
   wait_for_response FixedSource env_ok (world0\<lparr>clock := 8003\<rparr>) =
     (False, world0\<lparr>clock := 128003, opened := 1, recv_calls := 120,
               log := [Warning ''No valid response received within timeout'']\<rparr>) \<and>
   wait_for_response FixedSource (env_ok\<lparr>deadline_rounds_below := True\<rparr>)
       (world0\<lparr>clock := 8003\<rparr>) =
     (False, world0\<lparr>clock := 129003, opened := 1, recv_calls := 121,
               log := [Warning ''No valid response received within timeout'']\<rparr>)"
proof -
  have h: "wait_bus_opens env_ok \<and>
    list_all (passed_over FixedSource) (rx_script (world0\<lparr>rx_script := [Quiet, Got 5 other_frame]\<rparr>))"
    by (simp add: env_ok_def other_frame_def)
  have a: "wait_for_response FixedSource env_ok (world0\<lparr>clock := 8003\<rparr>) =
     (False, world0\<lparr>clock := 128003, opened := 1, recv_calls := 120,
               log := [Warning ''No valid response received within timeout'']\<rparr>)"
    using wait_silent[of env_ok "world0\<lparr>clock := 8003\<rparr>" 120 FixedSource]
    by (simp add: env_ok_def world0_def poll_interval_def)
  have b: "wait_for_response FixedSource (env_ok\<lparr>deadline_rounds_below := True\<rparr>)
       (world0\<lparr>clock := 8003\<rparr>) =
     (False, world0\<lparr>clock := 129003, opened := 1, recv_calls := 121,
               log := [Warning ''No valid response received within timeout'']\<rparr>)"
    using wait_silent[of "env_ok\<lparr>deadline_rounds_below := True\<rparr>"
                         "world0\<lparr>clock := 8003\<rparr>" 120 FixedSource]
    by (simp add: env_ok_def world0_def poll_interval_def)
  show ?thesis
    using h a b wait_times_out_on_time[of FixedSource env_ok
              "world0\<lparr>rx_script := [Quiet, Got 5 other_frame]\<rparr>"]
    by (simp add: world0_def poll_interval_def)
qed

text \<open>
  C10. In the variant with the fixed source address the acknowledgement test reads only the
  low byte of the identifier: the first frame received whose identifier has low byte 3 and
  whose payload byte 0 is 1 makes the wait return \<open>True\<close>, whatever its other identifier
  bits are, and no further frame is read.
\<close>

theorem fixed_source_accepts_any_parameter_group:
  assumes "arbitration_id m AND 0xFF = 3" and "data m = 1 # bs"
    and "wait_bus_opens e" and "rx_script w = pre @ Got d m # post"
    and "list_all (passed_over FixedSource) pre"
    and "sum_list (map delay pre) < timeout FixedSource"
  shows "valid_response FixedSource m = Some True \<and>
         fst (wait_for_response FixedSource e w) = True \<and>
         rx_script (snd (wait_for_response FixedSource e w)) = post \<and>
         recv_calls (snd (wait_for_response FixedSource e w)) = recv_calls w + length pre + 1"
proof -
  have v: "valid_response FixedSource m = Some True"
    using assms(1,2) by (simp add: data0_is_1_def)
  then have n: "\<not> passed_over FixedSource (Got d m)" by (simp del: valid_response.simps)
  from wait_first_stop[OF assms(3,4,5) n assms(6)] v show ?thesis
    by (simp add: wait_for_response_by_ending logging_def drop_bus_def
             del: valid_response.simps)
qed

theorem fixed_source_accepts_any_parameter_group_witness:
  "arbitration_id unrelated_from_3 AND 0xFF = 3 \<and> data unrelated_from_3 = 1 # [0, 0, 0, 0, 0, 0, 0] \<and>
   wait_bus_opens env_ok \<and>
   list_all (passed_over FixedSource) [Quiet, Got 5 other_frame] \<and>
   sum_list (map delay [Quiet, Got 5 other_frame]) < timeout FixedSource \<and>
   fst (wait_for_response FixedSource env_ok
          (world0\<lparr>rx_script := [Quiet, Got 5 other_frame] @ Got 7 unrelated_from_3 # [Quiet]\<rparr>)) = True \<and>
   rx_script (snd (wait_for_response FixedSource env_ok
          (world0\<lparr>rx_script := [Quiet, Got 5 other_frame] @ Got 7 unrelated_from_3 # [Quiet]\<rparr>))) = [Quiet] \<and>
   recv_calls (snd (wait_for_response FixedSource env_ok
          (world0\<lparr>rx_script := [Quiet, Got 5 other_frame] @ Got 7 unrelated_from_3 # [Quiet]\<rparr>))) = 3"
proof -
  have h1: "arbitration_id unrelated_from_3 AND 0xFF = 3" by (simp add: unrelated_from_3_def)
  have h2: "data unrelated_from_3 = 1 # [0, 0, 0, 0, 0, 0, 0]" by (simp add: unrelated_from_3_def)
  have h3: "wait_bus_opens env_ok" by (simp add: env_ok_def)
  have h4: "rx_script (world0\<lparr>rx_script := [Quiet, Got 5 other_frame] @ Got 7 unrelated_from_3 # [Quiet]\<rparr>)
              = [Quiet, Got 5 other_frame] @ Got 7 unrelated_from_3 # [Quiet]" by simp
  have h5: "list_all (passed_over FixedSource) [Quiet, Got 5 other_frame]"
    by (simp add: other_frame_def)
  have h6: "sum_list (map delay [Quiet, Got 5 other_frame]) < timeout FixedSource"
    by (simp add: poll_interval_def)
  show ?thesis
    using h1 h2 h3 h5 h6 fixed_source_accepts_any_parameter_group[OF h1 h2 h3 h4 h5 h6]
    by (simp add: world0_def)
qed

section \<open>Claims about one pass of the main loop\<close>

text \<open>
  C2. In every pass of the main loop \<^verbatim>\<open>send_update_command\<close> is called only if, in that
  pass, the check reported a new file, the interface was set up, the trigger frame was sent
  and \<^verbatim>\<open>wait_for_response\<close> returned \<open>True\<close>; it is then called once. A pass in which
  the handshake fails leaves the number of update invocations as it was.
\<close>

theorem update_only_after_acknowledgement:
  assumes "update_calls (snd (main_iteration v e w)) \<noteq> update_calls w"
  shows "check_result e = Returns True \<and>
         fst (setup_can_interface e (at_setup v e w)) = Returns True \<and>
         fst (send_can_message e (at_send v e w)) \<and>
         fst (wait_for_response v e (at_wait v e w)) \<and>
         update_calls (snd (main_iteration v e w)) = update_calls w + 1"
proof -
  let ?w4 = "snd (wait_for_response v e (at_wait v e w))"
  have u4: "update_calls ?w4 = update_calls w"
    by (simp add: wait_frame at_stage_update_calls)
  have u5: "update_calls (snd (send_update_command e ?w4)) = update_calls w + 1"
    by (simp add: update_frame u4)
  obtain c w5 where up: "send_update_command e ?w4 = (c, w5)"
    by (cases "send_update_command e ?w4")
  with u5 have w5: "update_calls w5 = update_calls w + 1" by simp
  show ?thesis
    using assms up w5 u4
    by (simp add: main_iteration_stages check_and_download_file_def unexpected_def
          interval_sleep_def sleep_def logging_def at_stage_update_calls
          split: call.splits bool.splits if_splits)
qed

theorem update_only_after_acknowledgement_witness:
  "update_calls (snd (main_iteration FixedSource env_ok
                        (world0\<lparr>rx_script := [Got 0 unrelated_from_3]\<rparr>))) \<noteq>
     update_calls (world0\<lparr>rx_script := [Got 0 unrelated_from_3]\<rparr>) \<and>
   fst (send_can_message env_ok
          (at_send FixedSource env_ok (world0\<lparr>rx_script := [Got 0 unrelated_from_3]\<rparr>))) \<and>
   fst (wait_for_response FixedSource env_ok
          (at_wait FixedSource env_ok (world0\<lparr>rx_script := [Got 0 unrelated_from_3]\<rparr>)))"
proof -
  have h: "update_calls (snd (main_iteration FixedSource env_ok
                        (world0\<lparr>rx_script := [Got 0 unrelated_from_3]\<rparr>))) \<noteq>
     update_calls (world0\<lparr>rx_script := [Got 0 unrelated_from_3]\<rparr>)"
    by (simp add: run_defs poll_loop.simps unrelated_from_3_def)
  from update_only_after_acknowledgement[OF h] h show ?thesis by simp
qed

text \<open>
  C5. After a pass that fails, the next freshness check should begin only after the
  60-second interval. A pass that fails at the interface setup ends at \<^verbatim>\<open>continue\<close>,
  which skips the \<^verbatim>\<open>time.sleep(DOWNLOAD_CHECK_INTERVAL)\<close> at the bottom of the loop body:
  no pause is made and the next check starts at the same instant, where a pass that finds no
  new file is followed by a check 60 seconds later.
\<close>

theorem failed_setup_is_retried_without_pause:
  "main_iteration FixedSource (env_ok\<lparr>link_up := NonZero\<rparr>) world0 =
     (SetupFailed,
      world0\<lparr>setup_calls := 1, check_times := [0],
        log := [Info ''Checking for new file...'',
                Info ''New file detected, starting update process'',
                Error ''Failed to configure CAN interface'',
                Error ''Failed to setup CAN interface'']\<rparr>) \<and>
   interval_sleeps (snd (main_iteration FixedSource (env_ok\<lparr>link_up := NonZero\<rparr>) world0)) = 0 \<and>
   check_times (main FixedSource [env_ok\<lparr>link_up := NonZero\<rparr>,
                                  env_ok\<lparr>check_result := Returns False\<rparr>] world0) = [0, 0] \<and>
   check_times (main FixedSource [env_ok\<lparr>check_result := Returns False\<rparr>,
                                  env_ok\<lparr>check_result := Returns False\<rparr>] world0) = [0, 60000]"
  by (simp add: run_defs)



text \<open>
  C8. The trigger frame is a constant: extended identifier 0x18FF14FA and payload
  [1,0,0,0,0,0,0,0]. The send stage returns \<open>True\<close> exactly when the bus opens and the
  send succeeds; it then transmits this one frame, and otherwise transmits nothing. A whole
  pass of the main loop transmits this one frame when the check reports a new file, the
  three interface commands succeed, the bus opens and the send succeeds, and nothing
  otherwise.
\<close>

theorem trigger_frame_is_what_is_sent:
  "arbitration_id trigger_message = 0x18FF14FA \<and> is_extended_id trigger_message \<and>
   data trigger_message = [1, 0, 0, 0, 0, 0, 0, 0] \<and>
   fst (send_can_message e w) = (send_bus_opens e \<and> send_succeeds e) \<and>
   transmitted (snd (send_can_message e w)) =
     transmitted w @ (if send_bus_opens e \<and> send_succeeds e then [trigger_message] else []) \<and>
   transmitted (snd (main_iteration v e w)) =
     transmitted w @
       (if check_result e = Returns True \<and> link_down e = Exit0 \<and> set_bitrate e = Exit0 \<and>
           link_up e = Exit0 \<and> send_bus_opens e \<and> send_succeeds e
        then [trigger_message] else [])"
proof -
  let ?sent = "if send_bus_opens e \<and> send_succeeds e then [trigger_message] else []"
  have a: "transmitted (at_wait v e w) = transmitted w @ ?sent"
    by (simp add: at_wait_def send_frame send_result at_stage_transmitted)
  have b: "transmitted (snd (wait_for_response v e (at_wait v e w))) = transmitted w @ ?sent"
    by (simp add: wait_frame a)
  obtain r w5 where up: "send_update_command e (snd (wait_for_response v e (at_wait v e w))) = (r, w5)"
    by (cases "send_update_command e (snd (wait_for_response v e (at_wait v e w)))")
  with update_frame[of e "snd (wait_for_response v e (at_wait v e w))"] b
  have w5: "transmitted w5 = transmitted w @ ?sent" by simp
  have s: "fst (setup_can_interface e (at_setup v e w)) = Returns True \<longleftrightarrow>
           link_down e = Exit0 \<and> set_bitrate e = Exit0 \<and> link_up e = Exit0"
    by (rule setup_result)
  have m: "transmitted (snd (main_iteration v e w)) =
     transmitted w @
       (if check_result e = Returns True \<and> link_down e = Exit0 \<and> set_bitrate e = Exit0 \<and>
           link_up e = Exit0 \<and> send_bus_opens e \<and> send_succeeds e
        then [trigger_message] else [])"
  proof (cases "check_result e")
    case Raises
    then show ?thesis
      by (simp add: main_iteration_stages check_and_download_file_def unexpected_def
            interval_sleep_def sleep_def logging_def at_stage_transmitted)
  next
    case (Returns fresh)
    show ?thesis
    proof (cases fresh)
      case False
      with Returns show ?thesis
        by (simp add: main_iteration_stages check_and_download_file_def interval_sleep_def
              sleep_def logging_def at_stage_transmitted)
    next
      case True
      show ?thesis
      proof (cases "fst (setup_can_interface e (at_setup v e w))")
        case Raises
        with s have "\<not> (link_down e = Exit0 \<and> set_bitrate e = Exit0 \<and> link_up e = Exit0)"
          by simp
        with Raises Returns True show ?thesis
          by (auto simp: main_iteration_stages unexpected_def interval_sleep_def sleep_def
                logging_def at_stage_transmitted)
      next
        case (Returns ok)
        show ?thesis
        proof (cases ok)
          case False
          with Returns s
          have "\<not> (link_down e = Exit0 \<and> set_bitrate e = Exit0 \<and> link_up e = Exit0)"
            by simp
          with False Returns \<open>check_result e = Returns fresh\<close> True show ?thesis
            by (auto simp: main_iteration_stages logging_def at_stage_transmitted)
        next
          case ok: True
          with Returns s
          have "link_down e = Exit0 \<and> set_bitrate e = Exit0 \<and> link_up e = Exit0"
            by simp
          with ok Returns \<open>check_result e = Returns fresh\<close> True a b up w5 show ?thesis
            by (simp add: main_iteration_stages send_result unexpected_def interval_sleep_def
                  sleep_def logging_def split: call.splits bool.splits)
        qed
      qed
    qed
  qed
  show ?thesis
    using m by (simp add: send_frame send_result) (simp add: trigger_message_def)
qed

text \<open>
  A pass in which everything succeeds transmits the trigger frame and nothing else; a pass
  in which \<^verbatim>\<open>bus.send\<close> raises transmits nothing.
\<close>

theorem trigger_frame_is_what_is_sent_witness:
  "fst (send_can_message env_ok world0) \<and>
   transmitted (snd (send_can_message env_ok world0)) =
     [\<lparr>arbitration_id = 0x18FF14FA, is_extended_id = True, data = [1, 0, 0, 0, 0, 0, 0, 0]\<rparr>] \<and>
   transmitted (snd (main_iteration FixedSource env_ok world0)) =
     [\<lparr>arbitration_id = 0x18FF14FA, is_extended_id = True, data = [1, 0, 0, 0, 0, 0, 0, 0]\<rparr>] \<and>
   \<not> fst (send_can_message (env_ok\<lparr>send_succeeds := False\<rparr>) world0) \<and>
   transmitted (snd (main_iteration FixedSource (env_ok\<lparr>send_succeeds := False\<rparr>) world0)) = []"
  using trigger_frame_is_what_is_sent[of env_ok world0 FixedSource]
    trigger_frame_is_what_is_sent[of "env_ok\<lparr>send_succeeds := False\<rparr>" world0 FixedSource]
  by (simp add: env_ok_def world0_def trigger_message_def)

text \<open>
  C9. When the freshness check reports no new file, the pass ends with the no-action
  outcome: the state is the one the check left, followed by the pause for the check
  interval. No frame is sent, no receive call is made, no bus is opened, the interface is
  not set up and the update is not invoked; the log gains only the lines of the check.
\<close>

theorem no_new_file_no_channel_operation:
  assumes "check_result e = Returns False"
  shows "main_iteration v e w =
           (NoNewFile, interval_sleep (snd (check_and_download_file e (at_check v w)))) \<and>
         transmitted (snd (main_iteration v e w)) = transmitted w \<and>
         recv_calls (snd (main_iteration v e w)) = recv_calls w \<and>
         rx_script (snd (main_iteration v e w)) = rx_script w \<and>
         unreleased (snd (main_iteration v e w)) = unreleased w \<and>
         setup_calls (snd (main_iteration v e w)) = setup_calls w \<and>
         update_calls (snd (main_iteration v e w)) = update_calls w \<and>
         log (snd (main_iteration v e w)) = log (at_check v w) @ check_log e \<and>
         clock (snd (main_iteration v e w)) = clock w + DOWNLOAD_CHECK_INTERVAL"
  using assms
  by (simp add: main_iteration_stages check_and_download_file_def interval_sleep_def sleep_def
        at_check_def logging_def)

theorem no_new_file_no_channel_operation_witness:
  "check_result (env_ok\<lparr>check_result := Returns False\<rparr>) = Returns False \<and>
   main_iteration FixedSource (env_ok\<lparr>check_result := Returns False\<rparr>)
       (world0\<lparr>rx_script := [Got 0 unrelated_from_3]\<rparr>) =
     (NoNewFile,
      world0\<lparr>rx_script := [Got 0 unrelated_from_3], clock := 60000, check_times := [0],
        interval_sleeps := 1, log := [Info ''Checking for new file...'']\<rparr>)"
proof -
  have h: "check_result (env_ok\<lparr>check_result := Returns False\<rparr>) = Returns False" by simp
  from no_new_file_no_channel_operation[OF h, of FixedSource
         "world0\<lparr>rx_script := [Got 0 unrelated_from_3]\<rparr>"] h
  show ?thesis
    by (simp add: check_and_download_file_def interval_sleep_def sleep_def at_check_def
          logging_def env_ok_def world0_def DOWNLOAD_CHECK_INTERVAL_def)
qed

end
